theory Spec2Isabelle
  imports Main
begin

section \<open>Transports of the engine client (socketio\_client/engine/transports.py)\<close>

subsection \<open>Data\<close>

text \<open>
  The values a packet's \<open>data\<close> can hold: arrays, maps (in iteration order), text,
  numbers, booleans, null and raw binary blobs (Python's \<open>bytearray\<close>).
\<close>

datatype jvalue =
    JArr "jvalue list"
  | JMap "(string \<times> jvalue) list"
  | JText string
  | JNum int
  | JBool bool
  | JNull
  | JBin "nat list"

text \<open>A packet is a dict with a \<open>type\<close>, an optional \<open>data\<close> and an optional \<open>attachments\<close> count.\<close>

record packet =
  ptype :: string
  pdata :: "jvalue option"
  attachments :: "nat option"

text \<open>What travels on the wire: a text string or a \<open>bytearray\<close>.\<close>

datatype wire = Str string | ByteArray string

text \<open>The strings \<open>ready_state\<close> is assigned or compared with; Python's \<open>None\<close> is \<open>None\<close>.\<close>

datatype rstate = Opening | Open | Closed | Pausing | Paused

text \<open>The events emitted in this file, with their arguments.\<close>

datatype event =
    EvOpen
  | EvClose
  | EvError string string
  | EvPacket packet
  | EvDrain
  | EvPoll
  | EvPollComplete

text \<open>The exceptions raised in this file.\<close>

datatype error =
    TransportNotOpen
  | NotImplementedError
  | SidIsNone
  | PauseTimeout
  | AttributeError
  | KeyError

text \<open>A call either raises or returns; the transport it leaves behind comes with it.\<close>

datatype 'a res = Raised error | Returned 'a

text \<open>
  The dict \<open>context\<close> of one call of \<open>pause\<close>: its counter \<open>total\<close> and, when the call
  waits, the flag of its \<open>Event\<close>. The closures of that call share it, so the contexts live
  in a store and a closure holds the index of its context.
\<close>

record pause_context =
  ctx_total :: int
  ctx_event :: "bool option"

text \<open>
  The classes of the file. \<open>Transport\<close> and \<open>PollingTransport\<close> leave some methods
  unimplemented.
\<close>

datatype kind = Transport | PollingTransport | XHRPollingTransport | WebsocketTransport

text \<open>
  A transport object. \<open>websocket\<close> tells whether the attribute holds a client object.
  \<open>emitted\<close> is the trace of the events emitted so far. The three \<open>once\<close> fields are the
  listeners this file registers with \<open>once\<close>: the closure \<open>on_poll_complete\<close> of a
  \<open>pause\<close> call (by the index of its context) on \<open>poll_complete\<close> and on \<open>drain\<close>, and
  the closure \<open>close\<close> of \<open>PollingTransport.on_close\<close> on \<open>open\<close> (all copies of that
  closure are alike, so their number is kept). \<open>posted\<close> and \<open>frames\<close> record what was
  handed to the HTTP client and to the websocket client.
\<close>

record transport =
  path :: string
  hostname :: string
  port :: "int option"
  secure :: bool
  ready_state :: "rstate option"
  writable :: bool
  supports_binary :: bool
  sid :: "string option"
  polling :: bool
  websocket :: bool
  emitted :: "event list"
  once_poll_complete :: "nat list"
  once_drain :: "nat list"
  once_open :: nat
  contexts :: "pause_context list"
  posted :: "wire list"
  frames :: "wire list"

text \<open>An HTTP response: its status, its \<open>content-type\<close> header when it has one, its body.\<close>

record response =
  status_code :: int
  content_type :: "string option"
  content :: string

text \<open>
  The collaborators the file calls and does not define: the packet parser, the HTTP client
  (\<open>requests.get\<close> and \<open>requests.post\<close>, by method, url, body and content type), the
  websocket client's \<open>send\<close> (\<open>Some e\<close> when it raises \<open>RuntimeError e\<close>),
  \<open>urllib.urlencode\<close>, \<open>urlparse.urljoin\<close> and the rendering of the clock value
  \<open>time.mktime(...) * 1000\<close>.
\<close>

record collab =
  decode_payload :: "wire \<Rightarrow> packet list"
  decode_packet :: "wire \<Rightarrow> packet"
  encode_payload :: "packet list \<Rightarrow> bool \<Rightarrow> wire"
  encode_packet :: "packet \<Rightarrow> bool \<Rightarrow> wire"
  requests :: "string \<Rightarrow> string \<Rightarrow> wire option \<Rightarrow> string option \<Rightarrow> response"
  ws_send :: "wire \<Rightarrow> bool \<Rightarrow> string option"
  urlencode :: "(string \<times> string) list \<Rightarrow> string"
  urljoin :: "string \<Rightarrow> string \<Rightarrow> string"
  clock :: string

subsection \<open>Sequencing calls\<close>

definition and_then :: "'a res \<times> transport \<Rightarrow> ('a \<Rightarrow> transport \<Rightarrow> 'b res \<times> transport) \<Rightarrow> 'b res \<times> transport" where
  "and_then r f = (case r of (Raised e, t) \<Rightarrow> (Raised e, t) | (Returned x, t) \<Rightarrow> f x t)"

fun repeat_call :: "nat \<Rightarrow> (transport \<Rightarrow> unit res \<times> transport) \<Rightarrow> transport \<Rightarrow> unit res \<times> transport" where
  "repeat_call 0 f t = (Returned (), t)"
| "repeat_call (Suc n) f t = and_then (f t) (\<lambda>_. repeat_call n f)"

subsection \<open>The publish/subscribe facility\<close>

text \<open>
  Modelled from the spec: the event emitter (\<open>socketio.event_emitter\<close>) is not among the
  sources. \<open>emit\<close> reports a named event; a listener registered with \<open>once\<close> runs at the
  next emission of its event and is then gone. Listeners registered by other components
  are outside this file: of them the model keeps the trace \<open>emitted\<close> only.
\<close>

definition record_event :: "event \<Rightarrow> transport \<Rightarrow> transport" where
  "record_event e t = t\<lparr>emitted := emitted t @ [e]\<rparr>"

text \<open>The closure \<open>pause\<close> inside \<open>PollingTransport.pause\<close>, for the context at index \<open>i\<close>.\<close>

definition pause_closure :: "nat \<Rightarrow> transport \<Rightarrow> transport" where
  "pause_closure i t =
     (let t1 = t\<lparr>ready_state := Some Paused\<rparr>
      in case ctx_event (contexts t1 ! i) of
           None \<Rightarrow> t1
         | Some _ \<Rightarrow> t1\<lparr>contexts := (contexts t1)[i := (contexts t1 ! i)\<lparr>ctx_event := Some True\<rparr>]\<rparr>)"

text \<open>The closure \<open>on_poll_complete\<close> inside \<open>PollingTransport.pause\<close>.\<close>

definition on_poll_complete :: "nat \<Rightarrow> transport \<Rightarrow> transport" where
  "on_poll_complete i t =
     (let c = contexts t ! i;
          c1 = c\<lparr>ctx_total := ctx_total c - 1\<rparr>;
          t1 = t\<lparr>contexts := (contexts t)[i := c1]\<rparr>
      in if ctx_total c1 = 0 then pause_closure i t1 else t1)"

definition emit_poll_complete :: "transport \<Rightarrow> transport" where
  "emit_poll_complete t =
     (let hs = once_poll_complete t
      in fold on_poll_complete hs ((record_event EvPollComplete t)\<lparr>once_poll_complete := []\<rparr>))"

definition emit_drain :: "transport \<Rightarrow> transport" where
  "emit_drain t =
     (let hs = once_drain t
      in fold on_poll_complete hs ((record_event EvDrain t)\<lparr>once_drain := []\<rparr>))"

subsection \<open>class Transport\<close>

definition on_error :: "string \<Rightarrow> string \<Rightarrow> transport \<Rightarrow> transport" where
  "on_error msg desc t = record_event (EvError msg desc) t"

text \<open>\<open>Transport.on_packet\<close>.\<close>

definition on_packet :: "packet \<Rightarrow> transport \<Rightarrow> transport" where
  "on_packet p t = record_event (EvPacket p) t"

text \<open>\<open>Transport.on_close\<close>.\<close>

definition transport_on_close :: "transport \<Rightarrow> transport" where
  "transport_on_close t = record_event EvClose (t\<lparr>ready_state := Some Closed\<rparr>)"

text \<open>\<open>Transport.do_close\<close>: no class of the file overrides it.\<close>

definition do_close :: "kind \<Rightarrow> transport \<Rightarrow> unit res \<times> transport" where
  "do_close k t = (Raised NotImplementedError, t)"

subsection \<open>The write path\<close>

text \<open>
  \<open>XHRPollingTransport.request\<close>, with \<open>uri\<close> the value of \<open>self.uri()\<close>: the content
  type of a POST follows the body's type.
\<close>

definition request :: "collab \<Rightarrow> string \<Rightarrow> wire option \<Rightarrow> string \<Rightarrow> response" where
  "request c uri data method =
     (let ctype =
            (if method = ''POST'' then
               (case data of
                  Some (ByteArray _) \<Rightarrow> Some ''application/octet-stream''
                | _ \<Rightarrow> Some ''text/plain;charset=UTF-8'')
             else None)
      in requests c (if method = ''GET'' then ''GET'' else ''POST'') uri data ctype)"

subsection \<open>Building the request address\<close>

text \<open>Python's \<open>str\<close> of an integer.\<close>

fun str_nat :: "nat \<Rightarrow> string" where
  "str_nat n = (if n < 10 then [''0123456789'' ! n] else str_nat (n div 10) @ [''0123456789'' ! (n mod 10)])"

definition str_int :: "int \<Rightarrow> string" where
  "str_int i = (if i < 0 then ''-'' @ str_nat (nat (- i)) else str_nat (nat i))"

text \<open>The class attributes \<open>name\<close> and \<open>protocol_version\<close>.\<close>

fun name :: "kind \<Rightarrow> string" where
  "name Transport = ''_base_transport''"
| "name PollingTransport = ''polling''"
| "name XHRPollingTransport = ''polling''"
| "name WebsocketTransport = ''websocket''"

definition protocol_version :: int where
  "protocol_version = 3"

text \<open>
  \<open>PollingTransport.uri\<close>, by its local variables: \<open>schema\<close>, \<open>port\<close> as it stands at
  the return, and the dict \<open>query\<close> before it is encoded. A dict is kept as the list of
  its entries, values rendered by \<open>str\<close>; Python leaves the order of a dict's entries
  open, so nothing below depends on it.
\<close>

definition polling_uri_schema :: "transport \<Rightarrow> string" where
  "polling_uri_schema t = (if secure t then ''https'' else ''http'')"

definition polling_uri_port :: "transport \<Rightarrow> string" where
  "polling_uri_port t =
     (let schema = polling_uri_schema t
      in case port t of
           None \<Rightarrow> []
         | Some p \<Rightarrow>
             (if (''https'' = schema \<and> p \<noteq> 443) \<or> (''http'' = schema \<and> p \<noteq> 80)
              then '':'' @ str_int p else []))"

definition polling_uri_query :: "collab \<Rightarrow> kind \<Rightarrow> transport \<Rightarrow> (string \<times> string) list" where
  "polling_uri_query c k t =
     [(''EIO'', str_int protocol_version), (''transport'', name k), (''t'', clock c)]
     @ (case sid t of None \<Rightarrow> [] | Some s \<Rightarrow> [(''sid'', s)])
     @ (if \<not> supports_binary t \<and> sid t = None then [(''b64'', str_int 1)] else [])"

definition polling_uri :: "collab \<Rightarrow> kind \<Rightarrow> transport \<Rightarrow> string" where
  "polling_uri c k t =
     (let q = urlencode c (polling_uri_query c k t);
          q1 = (if length q > 0 then ''?'' @ q else q)
      in urljoin c (polling_uri_schema t @ ''://'' @ hostname t @ polling_uri_port t) (path t) @ q1)"

text \<open>\<open>WebsocketTransport.uri\<close>, in the same way. \<open>self.port\<close> and \<open>self.sid\<close> are tested for truth.\<close>

definition websocket_uri_schema :: "transport \<Rightarrow> string" where
  "websocket_uri_schema t = (if secure t then ''wss'' else ''ws'')"

definition websocket_uri_port :: "transport \<Rightarrow> string" where
  "websocket_uri_port t =
     (let schema = websocket_uri_schema t
      in case port t of
           None \<Rightarrow> []
         | Some p \<Rightarrow>
             (if p \<noteq> 0 \<and> ((''wss'' = schema \<and> p \<noteq> 433) \<or> (''ws'' = schema \<and> p \<noteq> 80))
              then '':'' @ str_int p else []))"

definition websocket_uri_query :: "collab \<Rightarrow> kind \<Rightarrow> transport \<Rightarrow> (string \<times> string) list" where
  "websocket_uri_query c k t =
     [(''EIO'', str_int protocol_version), (''transport'', name k), (''t'', clock c)]
     @ (case sid t of None \<Rightarrow> [] | Some s \<Rightarrow> (if s \<noteq> [] then [(''sid'', s)] else []))
     @ (if \<not> supports_binary t then [(''b64'', str_int 1)] else [])"

definition websocket_uri :: "collab \<Rightarrow> kind \<Rightarrow> transport \<Rightarrow> string" where
  "websocket_uri c k t =
     websocket_uri_schema t @ ''://'' @ hostname t @ websocket_uri_port t @ ''/''
       @ dropWhile (\<lambda>x. x = CHR ''/'') (path t) @ ''?'' @ urlencode c (websocket_uri_query c k t)"

subsection \<open>Writing\<close>

text \<open>\<open>XHRPollingTransport.do_write\<close>; \<open>PollingTransport.do_write\<close> is not implemented.\<close>

definition do_write :: "collab \<Rightarrow> kind \<Rightarrow> wire \<Rightarrow> transport \<Rightarrow> unit res \<times> transport" where
  "do_write c k data t =
     (case k of
        XHRPollingTransport \<Rightarrow>
          (let response = request c (polling_uri c k t) (Some data) ''POST'';
               t1 = t\<lparr>posted := posted t @ [data]\<rparr>
           in if 300 > status_code response \<and> status_code response \<ge> 200
              then (Returned (), t1)
              else (Returned (), on_error ''xhr request failed'' (content response) t1))
      | PollingTransport \<Rightarrow> (Raised NotImplementedError, t)
      | _ \<Rightarrow> (Raised AttributeError, t))"

text \<open>\<open>PollingTransport.write\<close>.\<close>

definition polling_write :: "collab \<Rightarrow> kind \<Rightarrow> packet list \<Rightarrow> transport \<Rightarrow> unit res \<times> transport" where
  "polling_write c k packets t =
     (let t1 = t\<lparr>writable := False\<rparr>;
          encoded = encode_payload c packets (supports_binary t1)
      in and_then (do_write c k encoded t1)
           (\<lambda>_ t2. (Returned (), emit_drain (t2\<lparr>writable := True\<rparr>))))"

text \<open>\<open>WebsocketTransport.write\<close>: its loop, then \<open>on_drain\<close>.\<close>

fun websocket_send_each :: "collab \<Rightarrow> packet list \<Rightarrow> transport \<Rightarrow> unit res \<times> transport" where
  "websocket_send_each c [] t = (Returned (), t)"
| "websocket_send_each c (p # ps) t =
     (let encoded_packet = encode_packet c p (supports_binary t);
          binary = (case encoded_packet of ByteArray _ \<Rightarrow> True | Str _ \<Rightarrow> False)
      in if \<not> websocket t then (Raised AttributeError, t)
         else (let t1 = t\<lparr>frames := frames t @ [encoded_packet]\<rparr>
               in case ws_send c encoded_packet binary of
                    None \<Rightarrow> websocket_send_each c ps t1
                  | Some e \<Rightarrow>
                      websocket_send_each c ps
                        (on_error ''The websocket clsoed without a close packet (%s)'' e t1)))"

definition on_drain :: "transport \<Rightarrow> transport" where
  "on_drain t = emit_drain (t\<lparr>writable := True\<rparr>)"

definition websocket_write :: "collab \<Rightarrow> packet list \<Rightarrow> transport \<Rightarrow> unit res \<times> transport" where
  "websocket_write c packets t =
     and_then (websocket_send_each c packets (t\<lparr>writable := False\<rparr>))
       (\<lambda>_ t1. (Returned (), on_drain t1))"

text \<open>The method \<open>write\<close>, as each class resolves it.\<close>

definition transport_write :: "collab \<Rightarrow> kind \<Rightarrow> packet list \<Rightarrow> transport \<Rightarrow> unit res \<times> transport" where
  "transport_write c k packets t =
     (case k of
        Transport \<Rightarrow> (Raised NotImplementedError, t)
      | WebsocketTransport \<Rightarrow> websocket_write c packets t
      | _ \<Rightarrow> polling_write c k packets t)"

text \<open>
  \<open>Transport.send\<close>. Its argument is a list (or tuple) of packets or one packet.
\<close>

datatype packets_arg = Single packet | Several "packet list"

definition send :: "collab \<Rightarrow> kind \<Rightarrow> packets_arg \<Rightarrow> transport \<Rightarrow> unit res \<times> transport" where
  "send c k packets t =
     (if Some Open = ready_state t then
        (let packets1 = (case packets of Single p \<Rightarrow> [p] | Several ps \<Rightarrow> ps)
         in transport_write c k packets1 t)
      else (Raised TransportNotOpen, t))"

subsection \<open>Opening and closing\<close>

definition close_packet :: packet where
  "close_packet = \<lparr>ptype = ''close'', pdata = None, attachments = None\<rparr>"

text \<open>The closure \<open>close\<close> inside \<open>PollingTransport.on_close\<close>.\<close>

definition close_closure :: "collab \<Rightarrow> kind \<Rightarrow> transport \<Rightarrow> unit res \<times> transport" where
  "close_closure c k t = transport_write c k [close_packet] t"

definition emit_open :: "collab \<Rightarrow> kind \<Rightarrow> transport \<Rightarrow> unit res \<times> transport" where
  "emit_open c k t =
     (let n = once_open t
      in repeat_call n (close_closure c k) ((record_event EvOpen t)\<lparr>once_open := 0\<rparr>))"

definition emit :: "collab \<Rightarrow> kind \<Rightarrow> event \<Rightarrow> transport \<Rightarrow> unit res \<times> transport" where
  "emit c k e t =
     (case e of
        EvOpen \<Rightarrow> emit_open c k t
      | EvDrain \<Rightarrow> (Returned (), emit_drain t)
      | EvPollComplete \<Rightarrow> (Returned (), emit_poll_complete t)
      | _ \<Rightarrow> (Returned (), record_event e t))"

text \<open>\<open>Transport.on_open\<close>.\<close>

definition on_open :: "collab \<Rightarrow> kind \<Rightarrow> transport \<Rightarrow> unit res \<times> transport" where
  "on_open c k t = emit_open c k (t\<lparr>ready_state := Some Open, writable := True\<rparr>)"

text \<open>\<open>PollingTransport.on_close\<close>, which overrides \<open>Transport.on_close\<close>.\<close>

definition polling_on_close :: "collab \<Rightarrow> kind \<Rightarrow> transport \<Rightarrow> unit res \<times> transport" where
  "polling_on_close c k t =
     (if Some Open = ready_state t then close_closure c k t
      else (Returned (), t\<lparr>once_open := once_open t + 1\<rparr>))"

text \<open>\<open>on_close\<close>, as each class resolves it.\<close>

definition on_close :: "collab \<Rightarrow> kind \<Rightarrow> transport \<Rightarrow> unit res \<times> transport" where
  "on_close c k t =
     (case k of
        PollingTransport \<Rightarrow> polling_on_close c k t
      | XHRPollingTransport \<Rightarrow> polling_on_close c k t
      | _ \<Rightarrow> (Returned (), transport_on_close t))"

text \<open>\<open>Transport.close\<close>.\<close>

definition close :: "collab \<Rightarrow> kind \<Rightarrow> transport \<Rightarrow> unit res \<times> transport" where
  "close c k t =
     (if Some Opening = ready_state t \<or> Some Open = ready_state t then
        and_then (do_close k t) (\<lambda>_. on_close c k)
      else (Returned (), t))"

subsection \<open>Incoming data\<close>

text \<open>\<open>Transport.on_data\<close>.\<close>

definition transport_on_data :: "collab \<Rightarrow> wire \<Rightarrow> transport \<Rightarrow> transport" where
  "transport_on_data c data t = (let p = decode_packet c data in on_packet p t)"

text \<open>
  The loop of \<open>PollingTransport.on_data\<close> over the decoded packets. It ends either
  with the packets used up or at the \<open>return False\<close> of a \<open>close\<close> packet.
\<close>

datatype loop_end = Exhausted | ReturnedFalse

fun on_data_loop :: "collab \<Rightarrow> kind \<Rightarrow> packet list \<Rightarrow> transport \<Rightarrow> loop_end res \<times> transport" where
  "on_data_loop c k [] t = (Returned Exhausted, t)"
| "on_data_loop c k (p # ps) t =
     and_then (if Some Opening = ready_state t then on_open c k t else (Returned (), t))
       (\<lambda>_ t1.
          if ''close'' = ptype p then
            and_then (polling_on_close c k t1) (\<lambda>_ t2. (Returned ReturnedFalse, t2))
          else on_data_loop c k ps (on_packet p t1))"

text \<open>\<open>PollingTransport.on_data\<close>; it returns \<open>False\<close>, \<open>True\<close> or nothing.\<close>

definition polling_on_data :: "collab \<Rightarrow> kind \<Rightarrow> wire \<Rightarrow> transport \<Rightarrow> bool option res \<times> transport" where
  "polling_on_data c k data t =
     and_then (on_data_loop c k (decode_payload c data) t)
       (\<lambda>e t1.
          case e of
            ReturnedFalse \<Rightarrow> (Returned (Some False), t1)
          | Exhausted \<Rightarrow>
              if Some Open = ready_state t1 \<and> sid t1 = None then (Raised SidIsNone, t1)
              else if Some Closed \<noteq> ready_state t1 then
                (let t2 = emit_poll_complete (t1\<lparr>polling := False\<rparr>)
                 in if Some Open = ready_state t2 then (Returned (Some True), t2)
                    else (Returned None, t2))
              else (Returned None, t1))"

text \<open>\<open>XHRPollingTransport.on_load\<close>.\<close>

definition on_load :: "collab \<Rightarrow> kind \<Rightarrow> response \<Rightarrow> transport \<Rightarrow> unit res \<times> transport" where
  "on_load c k response t =
     (case content_type response of
        None \<Rightarrow> (Raised KeyError, t)
      | Some ct \<Rightarrow>
          (let data =
                 (if ct = ''application/octet-stream'' then ByteArray (content response)
                  else if \<not> supports_binary t then Str (content response)
                  else Str ''ok'')
           in and_then (polling_on_data c k data t) (\<lambda>_ t1. (Returned (), t1))))"

text \<open>\<open>XHRPollingTransport.do_poll\<close>; \<open>PollingTransport.do_poll\<close> is not implemented.\<close>

definition do_poll :: "collab \<Rightarrow> kind \<Rightarrow> transport \<Rightarrow> unit res \<times> transport" where
  "do_poll c k t =
     (case k of
        XHRPollingTransport \<Rightarrow>
          (let response = request c (polling_uri c k t) None ''GET''
           in if 300 > status_code response \<and> status_code response \<ge> 200
              then on_load c k response t
              else if status_code response \<ge> 400
              then (Returned (), on_error ''xhr request failed'' (content response) t)
              else (Returned (), t))
      | PollingTransport \<Rightarrow> (Raised NotImplementedError, t)
      | _ \<Rightarrow> (Raised AttributeError, t))"

subsection \<open>Pausing\<close>

text \<open>
  \<open>context['event'].wait(timeout)\<close> suspends the caller until the flag is set or the time
  is up, and returns the flag. What happens meanwhile is what other tasks do with the
  transport: \<open>evs\<close> lists the events they emit on it, in order, before the time is up.
  An exception raised by a listener of theirs is theirs, not the waiting caller's.
\<close>

fun wait :: "collab \<Rightarrow> kind \<Rightarrow> nat \<Rightarrow> event list \<Rightarrow> transport \<Rightarrow> bool \<times> transport" where
  "wait c k i [] t = (ctx_event (contexts t ! i) = Some True, t)"
| "wait c k i (e # es) t =
     (if ctx_event (contexts t ! i) = Some True then (True, t)
      else wait c k i es (snd (emit c k e t)))"

text \<open>
  \<open>PollingTransport.pause\<close> up to its wait: the state is set, the fresh dict \<open>context\<close>
  is stored at index \<open>i\<close>, and either the listeners are registered or the pause is done
  at once.
\<close>

definition pause_register :: "bool \<Rightarrow> transport \<Rightarrow> transport" where
  "pause_register nowait t =
     (let t1 = t\<lparr>ready_state := Some Pausing\<rparr>;
          i = length (contexts t1);
          t2 = t1\<lparr>contexts := contexts t1
                  @ [\<lparr>ctx_total = 0, ctx_event = (if \<not> nowait then Some False else None)\<rparr>]\<rparr>;
          bump = (\<lambda>u. u\<lparr>contexts := (contexts u)[i := (contexts u ! i)\<lparr>ctx_total := ctx_total (contexts u ! i) + 1\<rparr>]\<rparr>)
      in if polling t2 \<or> \<not> writable t2 then
           (let ta = t2\<lparr>contexts := (contexts t2)[i := (contexts t2 ! i)\<lparr>ctx_total := 0\<rparr>]\<rparr>;
                tb = (if polling ta
                      then (bump ta)\<lparr>once_poll_complete := once_poll_complete ta @ [i]\<rparr>
                      else ta);
                tc = (if \<not> writable tb
                      then (bump tb)\<lparr>once_drain := once_drain tb @ [i]\<rparr>
                      else tb)
            in tc)
         else pause_closure i t2)"

text \<open>
  \<open>PollingTransport.pause\<close>; the \<open>timeout\<close> argument shows as the events \<open>evs\<close> that
  fit in it.
\<close>

definition pause :: "collab \<Rightarrow> kind \<Rightarrow> bool \<Rightarrow> event list \<Rightarrow> transport \<Rightarrow> unit res \<times> transport" where
  "pause c k nowait evs t =
     (let i = length (contexts t);
          t3 = pause_register nowait t
      in if \<not> nowait then
           (case wait c k i evs t3 of
              (True, t4) \<Rightarrow> (Returned (), t4)
            | (False, t4) \<Rightarrow> (Raised PauseTimeout, t4))
         else (Returned (), t3))"

subsection \<open>Construction\<close>

text \<open>\<open>__init__\<close> of a transport: path, host, port, \<open>secure\<close> and \<open>force_base64\<close>.\<close>

definition init :: "string \<Rightarrow> string \<Rightarrow> int option \<Rightarrow> bool \<Rightarrow> bool \<Rightarrow> transport" where
  "init pa ho po se force_base64 =
     \<lparr>path = pa, hostname = ho, port = po, secure = se, ready_state = None,
      writable = False, supports_binary = (\<not> force_base64), sid = None, polling = False,
      websocket = False, emitted = [], once_poll_complete = [], once_drain = [],
      once_open = 0, contexts = [], posted = [], frames = []\<rparr>"

section \<open>The binary codec\<close>

text \<open>
  Modelled from the spec: the placeholder object \<open>{_placeholder: true, num: i}\<close> that
  stands in a skeleton where a binary blob was taken out (the codec, \<open>socketio.binary\<close>,
  is not among the sources; only its tests are).
\<close>

definition placeholder :: "nat \<Rightarrow> jvalue" where
  "placeholder i = JMap [(''_placeholder'', JBool True), (''num'', JNum (int i))]"

text \<open>
  Modelled from the spec: the traversal of \<open>deconstructPacket\<close>, depth first, arrays and
  maps in their natural order; a binary blob goes to the end of \<open>buffers\<close> and leaves a
  placeholder carrying its index; every other leaf is copied unchanged.
\<close>

fun deconstruct :: "jvalue \<Rightarrow> nat list list \<Rightarrow> jvalue \<times> nat list list"
  and deconstruct_list :: "jvalue list \<Rightarrow> nat list list \<Rightarrow> jvalue list \<times> nat list list"
  and deconstruct_entries ::
    "(string \<times> jvalue) list \<Rightarrow> nat list list \<Rightarrow> (string \<times> jvalue) list \<times> nat list list"
where
  "deconstruct (JBin b) bufs = (placeholder (length bufs), bufs @ [b])"
| "deconstruct (JArr xs) bufs = (case deconstruct_list xs bufs of (ys, bufs1) \<Rightarrow> (JArr ys, bufs1))"
| "deconstruct (JMap kvs) bufs =
     (case deconstruct_entries kvs bufs of (kws, bufs1) \<Rightarrow> (JMap kws, bufs1))"
| "deconstruct (JText s) bufs = (JText s, bufs)"
| "deconstruct (JNum n) bufs = (JNum n, bufs)"
| "deconstruct (JBool b) bufs = (JBool b, bufs)"
| "deconstruct JNull bufs = (JNull, bufs)"
| "deconstruct_list [] bufs = ([], bufs)"
| "deconstruct_list (x # xs) bufs =
     (case deconstruct x bufs of (y, bufs1) \<Rightarrow>
        (case deconstruct_list xs bufs1 of (ys, bufs2) \<Rightarrow> (y # ys, bufs2)))"
| "deconstruct_entries [] bufs = ([], bufs)"
| "deconstruct_entries ((k, v) # kvs) bufs =
     (case deconstruct v bufs of (w, bufs1) \<Rightarrow>
        (case deconstruct_entries kvs bufs1 of (kws, bufs2) \<Rightarrow> ((k, w) # kws, bufs2)))"

text \<open>
  Modelled from the spec: \<open>deconstructPacket\<close>, giving the skeleton packet and the
  buffers; \<open>attachments\<close> is set on the skeleton when there is a buffer.
\<close>

record deconstructed =
  dec_packet :: packet
  dec_buffers :: "nat list list"

definition deconstruct_packet :: "packet \<Rightarrow> deconstructed" where
  "deconstruct_packet p =
     (case pdata p of
        None \<Rightarrow> \<lparr>dec_packet = p, dec_buffers = []\<rparr>
      | Some d \<Rightarrow>
          (case deconstruct d [] of
             (s, bufs) \<Rightarrow>
               \<lparr>dec_packet =
                  p\<lparr>pdata := Some s,
                    attachments := (if bufs \<noteq> [] then Some (length bufs) else attachments p)\<rparr>,
                dec_buffers = bufs\<rparr>))"

text \<open>
  Modelled from the spec: the field check by which the reconstruction knows a placeholder:
  a map whose \<open>_placeholder\<close> is true.
\<close>

definition is_placeholder :: "(string \<times> jvalue) list \<Rightarrow> bool" where
  "is_placeholder kvs = (map_of kvs ''_placeholder'' = Some (JBool True))"

text \<open>
  Modelled from the spec: the traversal of \<open>reconstructPacket\<close>; a placeholder is replaced
  by \<open>buffers[num]\<close>, every other value passes unchanged. \<open>None\<close> stands for the failure
  of a placeholder whose \<open>num\<close> is missing, is no number or is no index of \<open>buffers\<close>.
\<close>

fun reconstruct :: "jvalue \<Rightarrow> nat list list \<Rightarrow> jvalue option"
  and reconstruct_list :: "jvalue list \<Rightarrow> nat list list \<Rightarrow> jvalue list option"
  and reconstruct_entries ::
    "(string \<times> jvalue) list \<Rightarrow> nat list list \<Rightarrow> (string \<times> jvalue) list option"
where
  "reconstruct (JMap kvs) bufs =
     (if is_placeholder kvs then
        (case map_of kvs ''num'' of
           Some (JNum n) \<Rightarrow>
             (if 0 \<le> n \<and> nat n < length bufs then Some (JBin (bufs ! nat n)) else None)
         | _ \<Rightarrow> None)
      else map_option JMap (reconstruct_entries kvs bufs))"
| "reconstruct (JArr xs) bufs = map_option JArr (reconstruct_list xs bufs)"
| "reconstruct (JText s) bufs = Some (JText s)"
| "reconstruct (JNum n) bufs = Some (JNum n)"
| "reconstruct (JBool b) bufs = Some (JBool b)"
| "reconstruct JNull bufs = Some JNull"
| "reconstruct (JBin b) bufs = Some (JBin b)"
| "reconstruct_list [] bufs = Some []"
| "reconstruct_list (x # xs) bufs =
     (case reconstruct x bufs of
        None \<Rightarrow> None
      | Some y \<Rightarrow>
          (case reconstruct_list xs bufs of None \<Rightarrow> None | Some ys \<Rightarrow> Some (y # ys)))"
| "reconstruct_entries [] bufs = Some []"
| "reconstruct_entries ((k, v) # kvs) bufs =
     (case reconstruct v bufs of
        None \<Rightarrow> None
      | Some w \<Rightarrow>
          (case reconstruct_entries kvs bufs of
             None \<Rightarrow> None
           | Some kws \<Rightarrow> Some ((k, w) # kws)))"

text \<open>Modelled from the spec: \<open>reconstructPacket\<close>, the packet with its data rebuilt.\<close>

definition reconstruct_packet :: "packet \<Rightarrow> nat list list \<Rightarrow> packet option" where
  "reconstruct_packet p bufs =
     (case pdata p of
        None \<Rightarrow> Some p
      | Some s \<Rightarrow> map_option (\<lambda>d. p\<lparr>pdata := Some d\<rparr>) (reconstruct s bufs))"

text \<open>A data tree none of whose maps is itself taken for a placeholder.\<close>

fun placeholder_free :: "jvalue \<Rightarrow> bool"
  and placeholder_free_list :: "jvalue list \<Rightarrow> bool"
  and placeholder_free_entries :: "(string \<times> jvalue) list \<Rightarrow> bool"
where
  "placeholder_free (JMap kvs) = (\<not> is_placeholder kvs \<and> placeholder_free_entries kvs)"
| "placeholder_free (JArr xs) = placeholder_free_list xs"
| "placeholder_free (JText s) = True"
| "placeholder_free (JNum n) = True"
| "placeholder_free (JBool b) = True"
| "placeholder_free JNull = True"
| "placeholder_free (JBin b) = True"
| "placeholder_free_list [] = True"
| "placeholder_free_list (x # xs) = (placeholder_free x \<and> placeholder_free_list xs)"
| "placeholder_free_entries [] = True"
| "placeholder_free_entries ((k, v) # kvs) = (placeholder_free v \<and> placeholder_free_entries kvs)"

text \<open>The packet of the round-trip law: \<open>{type: 'event', data: D}\<close>.\<close>

definition event_packet :: "jvalue \<Rightarrow> packet" where
  "event_packet d = \<lparr>ptype = ''event'', pdata = Some d, attachments = None\<rparr>"

definition round_trip :: "jvalue \<Rightarrow> jvalue option option" where
  "round_trip d =
     (let r = deconstruct_packet (event_packet d)
      in map_option pdata (reconstruct_packet (dec_packet r) (dec_buffers r)))"

section \<open>Sample inputs\<close>

text \<open>
  Collaborators for the examples: a parser that decodes every payload to \<open>pkts\<close>, an HTTP
  server that answers every request with status \<open>st\<close>, a websocket that accepts every
  frame.
\<close>

definition sample_collab :: "packet list \<Rightarrow> int \<Rightarrow> collab" where
  "sample_collab pkts st =
     \<lparr>decode_payload = (\<lambda>_. pkts), decode_packet = (\<lambda>_. close_packet),
      encode_payload = (\<lambda>_ _. Str ''payload''), encode_packet = (\<lambda>_ _. Str ''packet''),
      requests = (\<lambda>_ _ _ _. \<lparr>status_code = st, content_type = Some ''text/plain'', content = ''body''\<rparr>),
      ws_send = (\<lambda>_ _. None),
      urlencode = (\<lambda>q. concat (map (\<lambda>(a, b). a @ ''='' @ b @ ''&'') q)),
      urljoin = (\<lambda>b p. b @ p), clock = ''0''\<rparr>"

text \<open>A transport as \<open>__init__\<close> leaves it, moved to the given state.\<close>

definition sample_transport :: "rstate \<Rightarrow> transport" where
  "sample_transport r = (init ''/engine.io'' ''localhost'' (Some 8080) False False)\<lparr>ready_state := Some r\<rparr>"

definition message_packet :: "string \<Rightarrow> packet" where
  "message_packet s = \<lparr>ptype = ''message'', pdata = Some (JText s), attachments = None\<rparr>"

definition busy_transport :: transport where
  "busy_transport = (sample_transport Open)\<lparr>polling := True\<rparr>"

section \<open>Notions for the properties of pause\<close>

text \<open>The events emitted on a transport between an earlier state and a later one.\<close>

definition fired :: "transport \<Rightarrow> transport \<Rightarrow> event list" where
  "fired t u = drop (length (emitted t)) (emitted u)"

text \<open>
  The context at index \<open>i\<close> while \<open>a\<close> and \<open>n\<close> of its listeners are still registered: the
  counter equals their number, the flag is set exactly when none is left, and then the
  transport is paused.
\<close>

definition ctx_ok :: "nat \<Rightarrow> nat \<Rightarrow> nat \<Rightarrow> transport \<Rightarrow> bool" where
  "ctx_ok i a n u \<longleftrightarrow>
     i < length (contexts u) \<and> ctx_total (contexts u ! i) = int (a + n) \<and>
     ctx_event (contexts u ! i) = Some (a + n = 0) \<and>
     (a + n = 0 \<longrightarrow> ready_state u = Some Paused)"

definition pending :: "nat \<Rightarrow> transport \<Rightarrow> bool" where
  "pending i t \<longleftrightarrow>
     count_list (once_poll_complete t) i \<le> 1 \<and> count_list (once_drain t) i \<le> 1 \<and>
     ctx_ok i (count_list (once_poll_complete t) i) (count_list (once_drain t) i) t"

text \<open>
  How a transport moves while a pause waits: the trace grows, a listener of context \<open>i\<close>
  goes exactly when its event is emitted, and without those events the state stays.
\<close>

definition advances :: "nat \<Rightarrow> transport \<Rightarrow> transport \<Rightarrow> bool" where
  "advances i t u \<longleftrightarrow>
     (pending i t \<longrightarrow> pending i u) \<and>
     (\<exists>es. emitted u = emitted t @ es \<and>
        count_list (once_poll_complete u) i =
          (if EvPollComplete \<in> set es then 0 else count_list (once_poll_complete t) i) \<and>
        count_list (once_drain u) i =
          (if EvDrain \<in> set es then 0 else count_list (once_drain t) i) \<and>
        (EvPollComplete \<notin> set es \<and> EvDrain \<notin> set es \<longrightarrow> ready_state u = ready_state t))"

text \<open>The transport after the registrations of a waiting pause with a poll or a write outstanding.\<close>

definition registered :: "transport \<Rightarrow> transport" where
  "registered t =
     t\<lparr>ready_state := Some Pausing,
       contexts := contexts t @ [\<lparr>ctx_total = (if polling t then 1 else 0) + (if writable t then 0 else 1),
                                 ctx_event = Some False\<rparr>],
       once_poll_complete := once_poll_complete t @ (if polling t then [length (contexts t)] else []),
       once_drain := once_drain t @ (if writable t then [] else [length (contexts t)])\<rparr>"

section \<open>Properties of the transports\<close>

text \<open>
  C3. \<open>close()\<close> in a state other than \<open>opening\<close> or \<open>open\<close> does nothing; in \<open>opening\<close> or
  \<open>open\<close> it calls \<open>do_close\<close>, which no class implements, so for every kind of transport
  the call raises \<open>NotImplementedError\<close> before \<open>on_close\<close> is reached: the state stays
  as it was and no \<open>close\<close> event is emitted.
\<close>

theorem close_raises_not_implemented:
  "(ready_state t = Some Opening \<or> ready_state t = Some Open \<longrightarrow>
      close c k t = (Raised NotImplementedError, t)) \<and>
   (ready_state t \<noteq> Some Opening \<and> ready_state t \<noteq> Some Open \<longrightarrow>
      close c k t = (Returned (), t))"
  by (auto simp: close_def do_close_def and_then_def)

theorem close_raises_not_implemented_witness:
  "close (sample_collab [] 200) WebsocketTransport (sample_transport Open)
     = (Raised NotImplementedError, sample_transport Open) \<and>
   ready_state (sample_transport Open) = Some Open \<and>
   close (sample_collab [] 200) WebsocketTransport (sample_transport Paused)
     = (Returned (), sample_transport Paused)"
  using close_raises_not_implemented [of "sample_transport Open" "sample_collab [] 200" WebsocketTransport]
    close_raises_not_implemented [of "sample_transport Paused" "sample_collab [] 200" WebsocketTransport]
  by (simp add: sample_transport_def)

text \<open>
  C6. \<open>send(packets)\<close> on a transport that is not \<open>open\<close> raises "Transport not open" and
  leaves the transport untouched (nothing is written); on an \<open>open\<close> transport a single
  packet is wrapped into a one-element list, a list is taken as it is, and the list goes
  to \<open>write\<close>.
\<close>

theorem send_requires_open:
  "(ready_state t \<noteq> Some Open \<longrightarrow> send c k ps t = (Raised TransportNotOpen, t)) \<and>
   (ready_state t = Some Open \<longrightarrow>
      send c k (Single p) t = transport_write c k [p] t \<and>
      send c k (Several qs) t = transport_write c k qs t)"
  by (auto simp: send_def)

theorem send_requires_open_witness:
  "send (sample_collab [] 200) XHRPollingTransport (Single close_packet) (sample_transport Opening)
     = (Raised TransportNotOpen, sample_transport Opening) \<and>
   send (sample_collab [] 200) XHRPollingTransport (Single close_packet) (sample_transport Open)
     = transport_write (sample_collab [] 200) XHRPollingTransport [close_packet] (sample_transport Open)"
  using send_requires_open [of "sample_transport Opening" "sample_collab [] 200" XHRPollingTransport "Single close_packet"]
    send_requires_open [of "sample_transport Open" "sample_collab [] 200" XHRPollingTransport _ close_packet]
  by (simp add: sample_transport_def)

text \<open>
  C7. On a secure websocket transport configured with port 443, the default of \<open>wss\<close>,
  \<open>uri()\<close> does not omit the port: it compares with 433, so \<open>:443\<close> is written and it is
  port 433 that is left out. The polling transport with \<open>https\<close> and port 443 omits it.
\<close>

theorem websocket_uri_keeps_default_port:
  "websocket_uri_port (init pa ho (Some 443) True fb) = '':443'' \<and>
   websocket_uri_port (init pa ho (Some 433) True fb) = [] \<and>
   polling_uri_port (init pa ho (Some 443) True fb) = []"
  by (simp add: websocket_uri_port_def websocket_uri_schema_def polling_uri_port_def
      polling_uri_schema_def init_def str_int_def)

text \<open>
  C8, as amended. The query dict of the polling transport has \<open>b64 = 1\<close> exactly when the
  transport does not support binary and \<open>sid\<close> is not known; the query dict of the
  websocket transport has it exactly when the transport does not support binary, whether
  \<open>sid\<close> is known or not. The polling transport's dict has \<open>sid\<close> exactly once it is
  known, the websocket transport's exactly once it is known and not empty.
\<close>

theorem uri_query_flags:
  "(map_of (polling_uri_query c k t) ''b64'' = Some ''1'') = (\<not> supports_binary t \<and> sid t = None) \<and>
   map_of (polling_uri_query c k t) ''sid'' = sid t \<and>
   (map_of (websocket_uri_query c k t) ''b64'' = Some ''1'') = (\<not> supports_binary t) \<and>
   map_of (websocket_uri_query c k t) ''sid'' =
     (case sid t of None \<Rightarrow> None | Some s \<Rightarrow> if s \<noteq> [] then Some s else None)"
  by (auto simp: polling_uri_query_def websocket_uri_query_def str_int_def split: option.splits)

theorem uri_query_flags_witness:
  "map_of (polling_uri_query (sample_collab [] 200) XHRPollingTransport
      ((init ''/engine.io'' ''localhost'' None False True)\<lparr>sid := Some ''abc''\<rparr>)) ''b64'' \<noteq> Some ''1'' \<and>
   map_of (websocket_uri_query (sample_collab [] 200) WebsocketTransport
      ((init ''/engine.io'' ''localhost'' None False True)\<lparr>sid := Some ''abc''\<rparr>)) ''sid'' = Some ''abc''"
  using uri_query_flags [of "sample_collab [] 200" XHRPollingTransport
      "(init ''/engine.io'' ''localhost'' None False True)\<lparr>sid := Some ''abc''\<rparr>"]
    uri_query_flags [of "sample_collab [] 200" WebsocketTransport
      "(init ''/engine.io'' ''localhost'' None False True)\<lparr>sid := Some ''abc''\<rparr>"]
  by (simp add: init_def)

text \<open>
  C8 as stated fails for the websocket transport: with binary unsupported and \<open>sid\<close>
  known, its query still carries \<open>b64 = 1\<close>.
\<close>

theorem websocket_b64_with_sid:
  "\<not> ((map_of (websocket_uri_query (sample_collab [] 200) WebsocketTransport
           ((init ''/engine.io'' ''localhost'' None False True)\<lparr>sid := Some ''abc''\<rparr>)) ''b64'' = Some ''1'')
       = (\<not> supports_binary ((init ''/engine.io'' ''localhost'' None False True)\<lparr>sid := Some ''abc''\<rparr>)
          \<and> sid ((init ''/engine.io'' ''localhost'' None False True)\<lparr>sid := Some ''abc''\<rparr>) = None))"
  by (simp add: websocket_uri_query_def init_def str_int_def)

text \<open>
  C10. \<open>XHRPollingTransport.do_poll\<close> on a response with a status from 300 to 399 returns
  with the transport exactly as it was: the load handler is not run and no error is
  emitted. \<open>do_write\<close> on any response whose status is not from 200 to 299 emits the
  error \<open>xhr request failed\<close> with the response body.
\<close>

theorem xhr_poll_drops_3xx_write_reports:
  "(300 \<le> status_code (request c (polling_uri c XHRPollingTransport t) None ''GET'') \<and>
    status_code (request c (polling_uri c XHRPollingTransport t) None ''GET'') < 400 \<longrightarrow>
      do_poll c XHRPollingTransport t = (Returned (), t)) \<and>
   (\<not> (200 \<le> status_code (request c (polling_uri c XHRPollingTransport t) (Some data) ''POST'') \<and>
        status_code (request c (polling_uri c XHRPollingTransport t) (Some data) ''POST'') < 300) \<longrightarrow>
      do_write c XHRPollingTransport data t =
        (Returned (),
         t\<lparr>posted := posted t @ [data],
           emitted := emitted t @ [EvError ''xhr request failed''
              (content (request c (polling_uri c XHRPollingTransport t) (Some data) ''POST''))]\<rparr>))"
  by (auto simp: do_poll_def do_write_def Let_def on_error_def record_event_def)

theorem xhr_poll_drops_3xx_write_reports_witness:
  "do_poll (sample_collab [] 302) XHRPollingTransport (sample_transport Open)
     = (Returned (), sample_transport Open) \<and>
   do_write (sample_collab [] 302) XHRPollingTransport (Str ''x'') (sample_transport Open)
     = (Returned (),
        (sample_transport Open)\<lparr>posted := [Str ''x''],
           emitted := [EvError ''xhr request failed'' ''body'']\<rparr>)"
  using xhr_poll_drops_3xx_write_reports [of "sample_collab [] 302" "sample_transport Open" "Str ''x''"]
  by (simp add: sample_collab_def request_def sample_transport_def init_def)


subsection \<open>Sequencing\<close>

lemma and_then_snd:
  assumes "P (snd r)" and "\<And>x u. P u \<Longrightarrow> P (snd (f x u))"
  shows "P (snd (and_then r f))"
  using assms by (cases r; cases "fst r") (auto simp: and_then_def)

lemma repeat_call_snd:
  assumes "P t" and "\<And>u. P u \<Longrightarrow> P (snd (f u))"
  shows "P (snd (repeat_call n f t))"
  using assms(1)
proof (induction n arbitrary: t)
  case 0
  then show ?case by simp
next
  case (Suc n)
  show ?case
    unfolding repeat_call.simps
    by (rule and_then_snd) (use Suc assms(2) in auto)
qed


subsection \<open>The polling flag through a payload\<close>

lemma polling_on_poll_complete: "polling (on_poll_complete i t) = polling t"
  by (simp add: on_poll_complete_def pause_closure_def Let_def split: option.splits)

lemma polling_fold_on_poll_complete: "polling (fold on_poll_complete hs t) = polling t"
  by (induction hs arbitrary: t) (simp_all add: polling_on_poll_complete)

lemma polling_emit_drain: "polling (emit_drain t) = polling t"
  by (simp add: emit_drain_def record_event_def polling_fold_on_poll_complete)

lemma polling_do_write: "polling (snd (do_write c k d t)) = polling t"
  by (simp add: do_write_def Let_def on_error_def record_event_def split: kind.splits)

lemma polling_polling_write: "polling (snd (polling_write c k ps t)) = polling t"
  unfolding polling_write_def Let_def
  by (rule and_then_snd [where P = "\<lambda>u. polling u = polling t"])
    (simp_all add: polling_do_write polling_emit_drain)

lemma polling_websocket_send_each: "polling (snd (websocket_send_each c ps t)) = polling t"
  by (induction ps arbitrary: t) (simp_all add: Let_def on_error_def record_event_def split: option.splits)

lemma polling_websocket_write: "polling (snd (websocket_write c ps t)) = polling t"
  unfolding websocket_write_def
  by (rule and_then_snd [where P = "\<lambda>u. polling u = polling t"]) 
    (simp_all add: on_drain_def polling_websocket_send_each polling_emit_drain)

lemma polling_transport_write: "polling (snd (transport_write c k ps t)) = polling t"
  by (simp add: transport_write_def polling_polling_write polling_websocket_write split: kind.splits)

lemma polling_repeat_close: "polling (snd (repeat_call n (close_closure c k) t)) = polling t"
  by (rule repeat_call_snd [where P = "\<lambda>u. polling u = polling t"]) 
    (simp_all add: close_closure_def polling_transport_write)

lemma polling_on_open: "polling (snd (on_open c k t)) = polling t"
  by (simp add: on_open_def emit_open_def record_event_def polling_repeat_close)

lemma polling_polling_on_close: "polling (snd (polling_on_close c k t)) = polling t"
  by (simp add: polling_on_close_def close_closure_def polling_transport_write)

lemma polling_on_data_loop: "polling (snd (on_data_loop c k ps t)) = polling t"
proof (induction ps arbitrary: t)
  case Nil
  then show ?case by simp
next
  case (Cons p ps)
  show ?case
    unfolding on_data_loop.simps
  proof (rule and_then_snd [where P = "\<lambda>u. polling u = polling t"])
    show "polling (snd (if Some Opening = ready_state t then on_open c k t else (Returned (), t))) = polling t"
      by (simp add: polling_on_open)
  next
    fix x :: unit and u :: transport
    assume u: "polling u = polling t"
    show "polling (snd (if ''close'' = ptype p
             then and_then (polling_on_close c k u) (\<lambda>_ t2. (Returned ReturnedFalse, t2))
             else on_data_loop c k ps (on_packet p u))) = polling t"
    proof (cases "''close'' = ptype p")
      case True
      have "polling (snd (and_then (polling_on_close c k u) (\<lambda>_ t2. (Returned ReturnedFalse, t2)))) = polling t"
        by (rule and_then_snd [where P = "\<lambda>u. polling u = polling t"]) 
          (simp_all add: u polling_polling_on_close)
      then show ?thesis using True by simp
    next
      case False
      then show ?thesis using Cons.IH [of "on_packet p u"] u by (simp add: on_packet_def record_event_def)
    qed
  qed
qed

lemma on_data_loop_exhausted:
  "\<forall>p \<in> set ps. ptype p \<noteq> ''close'' \<Longrightarrow> on_data_loop c k ps t = (Returned e, t1) \<Longrightarrow> e = Exhausted"
proof (induction ps arbitrary: t)
  case Nil
  then show ?case by simp
next
  case (Cons p ps)
  obtain x t0 where r: "(if Some Opening = ready_state t then on_open c k t else (Returned (), t)) = (x, t0)"
    by (cases "if Some Opening = ready_state t then on_open c k t else (Returned (), t)")
  show ?case
  proof (cases x)
    case (Raised er)
    then show ?thesis using Cons.prems r by (simp add: and_then_def)
  next
    case (Returned u)
    have "''close'' \<noteq> ptype p" using Cons.prems(1) by auto
    then have "on_data_loop c k ps (on_packet p t0) = (Returned e, t1)"
      using Cons.prems(2) r Returned by (simp add: and_then_def)
    then show ?thesis using Cons.IH Cons.prems(1) by simp
  qed
qed


text \<open>
  C9. When the loop of \<open>PollingTransport.on_data\<close> has gone through a payload with no
  \<open>close\<close> packet and leaves the transport \<open>open\<close> with \<open>sid\<close> unset, the call raises the
  \<open>sid is none\<close> error at once: the transport is left as the loop left it, the \<open>polling\<close>
  flag as it was before the call, and no \<open>poll_complete\<close> follows.
\<close>

theorem sid_unset_is_fatal:
  assumes "\<forall>p \<in> set (decode_payload c data). ptype p \<noteq> ''close''"
    and "on_data_loop c k (decode_payload c data) t = (Returned e, t1)"
    and "ready_state t1 = Some Open" and "sid t1 = None"
  shows "polling_on_data c k data t = (Raised SidIsNone, t1) \<and> polling t1 = polling t"
proof -
  have ex: "e = Exhausted" using on_data_loop_exhausted [OF assms(1) assms(2)] .
  have p: "polling t1 = polling t" using polling_on_data_loop [of c k "decode_payload c data" t] assms(2) by simp
  show ?thesis using assms ex p by (simp add: polling_on_data_def and_then_def)
qed

theorem sid_unset_is_fatal_witness:
  "polling_on_data (sample_collab [message_packet ''a''] 200) XHRPollingTransport (Str ''x'') (sample_transport Opening)
     = (Raised SidIsNone,
        (sample_transport Open)\<lparr>writable := True, emitted := [EvOpen, EvPacket (message_packet ''a'')]\<rparr>)"
  using sid_unset_is_fatal [of "sample_collab [message_packet ''a''] 200" "Str ''x''" XHRPollingTransport
      "sample_transport Opening" Exhausted
      "(sample_transport Open)\<lparr>writable := True, emitted := [EvOpen, EvPacket (message_packet ''a'')]\<rparr>"]
  by (simp add: sample_collab_def sample_transport_def init_def message_packet_def and_then_def
      on_open_def emit_open_def record_event_def on_packet_def)


text \<open>
  C2. The payload \<open>[message a, close, message b]\<close> on an opening polling transport:
  \<open>a\<close> is dispatched, \<open>b\<close> never is and the call returns \<open>False\<close>; but the \<open>on_close\<close>
  that runs is the polling transport's own, which posts a close packet and leaves
  \<open>ready_state\<close> at \<open>open\<close>: no \<open>close\<close> event is emitted and the transport is not closed.
\<close>

theorem close_packet_leaves_transport_open:
  "polling_on_data (sample_collab [message_packet ''a'', close_packet, message_packet ''b''] 200)
      XHRPollingTransport (Str ''x'') (sample_transport Opening)
   = (Returned (Some False),
      (sample_transport Open)\<lparr>writable := True,
         emitted := [EvOpen, EvPacket (message_packet ''a''), EvDrain],
         posted := [Str ''payload'']\<rparr>)"
  by (simp add: sample_collab_def sample_transport_def init_def message_packet_def and_then_def
      on_open_def emit_open_def record_event_def on_packet_def polling_on_data_def polling_on_close_def
      close_closure_def close_packet_def transport_write_def polling_write_def do_write_def request_def
      emit_drain_def Let_def)

subsection \<open>A pause that waits\<close>

lemma advances_refl: "advances i t t"
  by (simp add: advances_def)

lemma advances_trans:
  assumes "advances i t u" and "advances i u v"
  shows "advances i t v"
proof -
  from assms(1) obtain es where es: "emitted u = emitted t @ es"
    "count_list (once_poll_complete u) i = (if EvPollComplete \<in> set es then 0 else count_list (once_poll_complete t) i)"
    "count_list (once_drain u) i = (if EvDrain \<in> set es then 0 else count_list (once_drain t) i)"
    "EvPollComplete \<notin> set es \<and> EvDrain \<notin> set es \<longrightarrow> ready_state u = ready_state t"
    unfolding advances_def by blast
  from assms(2) obtain fs where fs: "emitted v = emitted u @ fs"
    "count_list (once_poll_complete v) i = (if EvPollComplete \<in> set fs then 0 else count_list (once_poll_complete u) i)"
    "count_list (once_drain v) i = (if EvDrain \<in> set fs then 0 else count_list (once_drain u) i)"
    "EvPollComplete \<notin> set fs \<and> EvDrain \<notin> set fs \<longrightarrow> ready_state v = ready_state u"
    unfolding advances_def by blast
  have p: "pending i t \<longrightarrow> pending i v" using assms unfolding advances_def by blast
  have "emitted v = emitted t @ (es @ fs)" using es(1) fs(1) by simp
  moreover have "count_list (once_poll_complete v) i =
      (if EvPollComplete \<in> set (es @ fs) then 0 else count_list (once_poll_complete t) i)"
    using es(2) fs(2) by simp
  moreover have "count_list (once_drain v) i =
      (if EvDrain \<in> set (es @ fs) then 0 else count_list (once_drain t) i)"
    using es(3) fs(3) by simp
  moreover have "EvPollComplete \<notin> set (es @ fs) \<and> EvDrain \<notin> set (es @ fs) \<longrightarrow> ready_state v = ready_state t"
    using es(4) fs(4) by simp
  ultimately show ?thesis using p unfolding advances_def by blast
qed

text \<open>What a listener of pause leaves alone.\<close>

lemma on_poll_complete_frame:
  "emitted (on_poll_complete j u) = emitted u"
  "once_poll_complete (on_poll_complete j u) = once_poll_complete u"
  "once_drain (on_poll_complete j u) = once_drain u"
  "length (contexts (on_poll_complete j u)) = length (contexts u)"
  "ready_state (on_poll_complete j u) = ready_state u \<or> ready_state (on_poll_complete j u) = Some Paused"
  by (simp_all add: on_poll_complete_def pause_closure_def Let_def split: option.splits)

lemma on_poll_complete_other:
  "j \<noteq> i \<Longrightarrow> contexts (on_poll_complete j u) ! i = contexts u ! i"
  by (simp add: on_poll_complete_def pause_closure_def Let_def split: option.splits)

lemma ctx_ok_other:
  assumes "j \<noteq> i" and "ctx_ok i a n u"
  shows "ctx_ok i a n (on_poll_complete j u)"
  using assms on_poll_complete_frame(4,5) [of j u] on_poll_complete_other [of j i u]
  unfolding ctx_ok_def by auto

lemma ctx_ok_self:
  assumes "ctx_ok i a 1 u"
  shows "ctx_ok i a 0 (on_poll_complete i u)"
  using assms unfolding ctx_ok_def
  by (auto simp: on_poll_complete_def pause_closure_def Let_def)

lemma fold_frame:
  "emitted (fold on_poll_complete hs u) = emitted u"
  "once_poll_complete (fold on_poll_complete hs u) = once_poll_complete u"
  "once_drain (fold on_poll_complete hs u) = once_drain u"
  by (induction hs arbitrary: u) (simp_all add: on_poll_complete_frame)

lemma fold_ready_state:
  "ready_state (fold on_poll_complete hs u) = ready_state u \<or>
   ready_state (fold on_poll_complete hs u) = Some Paused"
proof (induction hs arbitrary: u)
  case Nil
  then show ?case by simp
next
  case (Cons j hs)
  show ?case using Cons [of "on_poll_complete j u"] on_poll_complete_frame(5) [of j u] by auto
qed

lemma fold_ctx_ok:
  "count_list hs i \<le> 1 \<Longrightarrow> ctx_ok i a (count_list hs i) u \<Longrightarrow> ctx_ok i a 0 (fold on_poll_complete hs u)"
proof (induction hs arbitrary: u)
  case Nil
  then show ?case by simp
next
  case (Cons j hs)
  show ?case
  proof (cases "j = i")
    case True
    then have z: "count_list hs i = 0" using Cons.prems(1) by simp
    then have "ctx_ok i a 1 u" using Cons.prems(2) True by simp
    then have "ctx_ok i a 0 (on_poll_complete i u)" by (rule ctx_ok_self)
    then show ?thesis using Cons.IH [of "on_poll_complete i u"] z True by simp
  next
    case False
    then have "ctx_ok i a (count_list hs i) (on_poll_complete j u)"
      using Cons.prems(2) ctx_ok_other [of j i a "count_list hs i" u] by simp
    then show ?thesis using Cons.IH [of "on_poll_complete j u"] Cons.prems(1) False by simp
  qed
qed

lemma ctx_ok_swap: "ctx_ok i a n u = ctx_ok i n a u"
  by (auto simp: ctx_ok_def add.commute)

lemma advances_emit_drain: "advances i t (emit_drain t)"
proof -
  let ?u = "(record_event EvDrain t)\<lparr>once_drain := []\<rparr>"
  let ?v = "fold on_poll_complete (once_drain t) ?u"
  have v: "emit_drain t = ?v" by (simp add: emit_drain_def)
  have fr: "emitted ?v = emitted t @ [EvDrain]" "once_poll_complete ?v = once_poll_complete t"
    "once_drain ?v = []"
    by (simp_all add: fold_frame record_event_def)
  have rs: "ready_state ?v = ready_state t \<or> ready_state ?v = Some Paused"
    using fold_ready_state [of "once_drain t" ?u] by (simp add: record_event_def)
  have p: "pending i ?v" if pe: "pending i t"
  proof -
    have "ctx_ok i (count_list (once_poll_complete t) i) (count_list (once_drain t) i) ?u"
      using pe by (simp add: pending_def ctx_ok_def record_event_def)
    then have "ctx_ok i (count_list (once_poll_complete t) i) 0 ?v"
      using fold_ctx_ok [of "once_drain t" i _ ?u] pe by (simp add: pending_def)
    then show ?thesis using pe fr by (simp add: pending_def)
  qed
  show ?thesis
    unfolding advances_def v
    using p fr by (intro conjI impI exI [of _ "[EvDrain]"]) simp_all
qed

lemma advances_emit_poll_complete: "advances i t (emit_poll_complete t)"
proof -
  let ?u = "(record_event EvPollComplete t)\<lparr>once_poll_complete := []\<rparr>"
  let ?v = "fold on_poll_complete (once_poll_complete t) ?u"
  have v: "emit_poll_complete t = ?v" by (simp add: emit_poll_complete_def)
  have fr: "emitted ?v = emitted t @ [EvPollComplete]" "once_poll_complete ?v = []"
    "once_drain ?v = once_drain t"
    by (simp_all add: fold_frame record_event_def)
  have p: "pending i ?v" if pe: "pending i t"
  proof -
    have "ctx_ok i (count_list (once_drain t) i) (count_list (once_poll_complete t) i) ?u"
      using pe by (simp add: pending_def ctx_ok_def record_event_def add.commute)
    then have "ctx_ok i (count_list (once_drain t) i) 0 ?v"
      using fold_ctx_ok [of "once_poll_complete t" i _ ?u] pe by (simp add: pending_def)
    then show ?thesis using pe fr ctx_ok_swap [of i 0] by (simp add: pending_def)
  qed
  show ?thesis
    unfolding advances_def v
    using p fr by (intro conjI impI exI [of _ "[EvPollComplete]"]) simp_all
qed

text \<open>Updates that do not touch what pause depends on.\<close>

lemma advances_plain:
  assumes "emitted u = emitted t @ es" and "EvPollComplete \<notin> set es" and "EvDrain \<notin> set es"
    and "once_poll_complete u = once_poll_complete t" and "once_drain u = once_drain t"
    and "contexts u = contexts t" and "ready_state u = ready_state t"
  shows "advances i t u"
  unfolding advances_def using assms
  by (intro conjI impI exI [of _ es]) (simp_all add: pending_def ctx_ok_def)


lemma advances_do_write: "advances i t (snd (do_write c k d t))"
proof -
  have a: "advances i t (t\<lparr>posted := posted t @ [d]\<rparr>)"
    by (rule advances_plain [where es = "[]"]) simp_all
  have b: "advances i t (on_error m e (t\<lparr>posted := posted t @ [d]\<rparr>))" for m e
    by (rule advances_plain [where es = "[EvError m e]"]) (simp_all add: on_error_def record_event_def)
  show ?thesis by (cases k) (simp_all add: do_write_def Let_def a b advances_refl)
qed

lemma advances_polling_write: "advances i t (snd (polling_write c k ps t))"
  unfolding polling_write_def Let_def
proof (rule and_then_snd [where P = "advances i t"])
  have "advances i t (t\<lparr>writable := False\<rparr>)"
    by (rule advances_plain [where es = "[]"]) simp_all
  then show "advances i t (snd (do_write c k (encode_payload c ps (supports_binary (t\<lparr>writable := False\<rparr>))) (t\<lparr>writable := False\<rparr>)))"
    using advances_do_write advances_trans by blast
next
  fix x :: unit and u :: transport
  assume u: "advances i t u"
  have "advances i u (u\<lparr>writable := True\<rparr>)"
    by (rule advances_plain [where es = "[]"]) simp_all
  then have "advances i u (emit_drain (u\<lparr>writable := True\<rparr>))"
    using advances_emit_drain advances_trans by blast
  then show "advances i t (snd (Returned (), emit_drain (u\<lparr>writable := True\<rparr>)))"
    using u advances_trans by auto
qed

lemma advances_websocket_send_each: "advances i t (snd (websocket_send_each c ps t))"
proof (induction ps arbitrary: t)
  case Nil
  then show ?case by (simp add: advances_refl)
next
  case (Cons p ps)
  let ?e = "encode_packet c p (supports_binary t)"
  let ?t1 = "t\<lparr>frames := frames t @ [?e]\<rparr>"
  have a: "advances i t ?t1" by (rule advances_plain [where es = "[]"]) simp_all
  have b: "advances i t (on_error m e ?t1)" for m e
    by (rule advances_plain [where es = "[EvError m e]"]) (simp_all add: on_error_def record_event_def)
  have c1: "advances i t (snd (websocket_send_each c ps ?t1))"
    using a Cons.IH [of ?t1] advances_trans by blast
  have c2: "advances i t (snd (websocket_send_each c ps (on_error m e ?t1)))" for m e
    using b Cons.IH advances_trans by blast
  show ?case using c1 c2 advances_refl by (simp add: Let_def split: option.splits)
qed

lemma advances_websocket_write: "advances i t (snd (websocket_write c ps t))"
  unfolding websocket_write_def
proof (rule and_then_snd [where P = "advances i t"])
  have "advances i t (t\<lparr>writable := False\<rparr>)"
    by (rule advances_plain [where es = "[]"]) simp_all
  then show "advances i t (snd (websocket_send_each c ps (t\<lparr>writable := False\<rparr>)))"
    using advances_websocket_send_each advances_trans by blast
next
  fix x :: unit and u :: transport
  assume u: "advances i t u"
  have "advances i u (u\<lparr>writable := True\<rparr>)"
    by (rule advances_plain [where es = "[]"]) simp_all
  then have "advances i u (on_drain u)"
    unfolding on_drain_def using advances_emit_drain advances_trans by blast
  then show "advances i t (snd (Returned (), on_drain u))"
    using u advances_trans by auto
qed

lemma advances_transport_write: "advances i t (snd (transport_write c k ps t))"
  by (cases k) (simp_all add: transport_write_def advances_refl advances_polling_write advances_websocket_write)

lemma advances_emit_open: "advances i t (snd (emit_open c k t))"
proof -
  let ?u = "(record_event EvOpen t)\<lparr>once_open := 0\<rparr>"
  have a: "advances i t ?u"
    by (rule advances_plain [where es = "[EvOpen]"]) (simp_all add: record_event_def)
  have "advances i t (snd (repeat_call (once_open t) (close_closure c k) ?u))"
  proof (rule repeat_call_snd [where P = "advances i t"])
    show "advances i t ?u" by (rule a)
  next
    fix u assume "advances i t u"
    then show "advances i t (snd (close_closure c k u))"
      unfolding close_closure_def using advances_transport_write advances_trans by blast
  qed
  then show ?thesis by (simp add: emit_open_def)
qed

lemma advances_emit: "advances i t (snd (emit c k e t))"
proof (cases e)
  case EvOpen
  then show ?thesis by (simp add: emit_def advances_emit_open)
next
  case EvDrain
  then show ?thesis by (simp add: emit_def advances_emit_drain)
next
  case EvPollComplete
  then show ?thesis by (simp add: emit_def advances_emit_poll_complete)
next
  case EvClose
  then show ?thesis
    by (auto simp: emit_def record_event_def intro!: advances_plain [where es = "[EvClose]"])
next
  case (EvError m d)
  then show ?thesis
    by (auto simp: emit_def record_event_def intro!: advances_plain [where es = "[EvError m d]"])
next
  case (EvPacket p)
  then show ?thesis
    by (auto simp: emit_def record_event_def intro!: advances_plain [where es = "[EvPacket p]"])
next
  case EvPoll
  then show ?thesis
    by (auto simp: emit_def record_event_def intro!: advances_plain [where es = "[EvPoll]"])
qed

lemma advances_wait: "advances i t (snd (wait c k i evs t))"
proof (induction evs arbitrary: t)
  case Nil
  then show ?case by (simp add: advances_refl)
next
  case (Cons e es)
  have "advances i t (snd (wait c k i es (snd (emit c k e t))))"
    using advances_emit [of i t c k e] Cons.IH [of "snd (emit c k e t)"] advances_trans by blast
  then show ?case by (simp add: advances_refl)
qed

lemma wait_flag:
  "fst (wait c k i evs t) = (ctx_event (contexts (snd (wait c k i evs t)) ! i) = Some True)"
proof (induction evs arbitrary: t)
  case Nil
  then show ?case by simp
next
  case (Cons e es)
  then show ?case by simp
qed


lemma pause_register_eq:
  assumes "polling t \<or> \<not> writable t"
  shows "pause_register False t = registered t"
proof -
  have "polling t \<and> \<not> writable t \<or> polling t \<and> writable t \<or> \<not> polling t \<and> \<not> writable t"
    using assms by blast
  then show ?thesis
    by (elim disjE) (simp_all add: pause_register_def registered_def Let_def)
qed

lemma pause_wait_form:
  assumes "polling t \<or> \<not> writable t"
  shows "pause c k False evs t =
     (case wait c k (length (contexts t)) evs (registered t) of
        (True, t4) \<Rightarrow> (Returned (), t4)
      | (False, t4) \<Rightarrow> (Raised PauseTimeout, t4))"
  by (simp add: pause_def pause_register_eq [OF assms])

lemma pending_registered:
  assumes "polling t \<or> \<not> writable t"
    and "\<forall>j \<in> set (once_poll_complete t) \<union> set (once_drain t). j < length (contexts t)"
  shows "pending (length (contexts t)) (registered t)"
    and "count_list (once_poll_complete (registered t)) (length (contexts t)) = (if polling t then 1 else 0)"
    and "count_list (once_drain (registered t)) (length (contexts t)) = (if writable t then 0 else 1)"
proof -
  have a: "count_list (once_poll_complete t) (length (contexts t)) = 0"
    and b: "count_list (once_drain t) (length (contexts t)) = 0"
    using assms(2) by (auto simp: count_list_0_iff)
  show c: "count_list (once_poll_complete (registered t)) (length (contexts t)) = (if polling t then 1 else 0)"
    using a by (simp add: registered_def)
  show d: "count_list (once_drain (registered t)) (length (contexts t)) = (if writable t then 0 else 1)"
    using b by (simp add: registered_def)
  have "ctx_ok (length (contexts t)) (if polling t then 1 else 0) (if writable t then 0 else 1) (registered t)"
    using assms(1) by (auto simp: ctx_ok_def registered_def)
  then show "pending (length (contexts t)) (registered t)"
    unfolding pending_def c d by simp
qed

lemma pause_outcome:
  assumes pw: "polling t \<or> \<not> writable t"
    and wf: "\<forall>j \<in> set (once_poll_complete t) \<union> set (once_drain t). j < length (contexts t)"
  shows "\<exists>u. snd (pause c k False evs t) = u \<and>
     fst (pause c k False evs t) = (if ctx_event (contexts u ! length (contexts t)) = Some True then Returned () else Raised PauseTimeout) \<and>
     pending (length (contexts t)) u \<and>
     count_list (once_poll_complete u) (length (contexts t)) =
       (if EvPollComplete \<in> set (fired t u) then 0 else if polling t then 1 else 0) \<and>
     count_list (once_drain u) (length (contexts t)) =
       (if EvDrain \<in> set (fired t u) then 0 else if writable t then 0 else 1) \<and>
     (EvPollComplete \<notin> set (fired t u) \<and> EvDrain \<notin> set (fired t u) \<longrightarrow> ready_state u = Some Pausing)"
proof -
  let ?i = "length (contexts t)"
  let ?w = "wait c k ?i evs (registered t)"
  have form: "pause c k False evs t = (if fst ?w then (Returned (), snd ?w) else (Raised PauseTimeout, snd ?w))"
    using pause_wait_form [OF pw, of c k evs] by (cases ?w) auto
  have fl: "fst ?w = (ctx_event (contexts (snd ?w) ! ?i) = Some True)" by (rule wait_flag)
  have adv: "advances ?i (registered t) (snd ?w)" by (rule advances_wait)
  have em: "emitted (registered t) = emitted t" and rs: "ready_state (registered t) = Some Pausing"
    by (simp_all add: registered_def)
  from adv obtain es where es: "emitted (snd ?w) = emitted t @ es"
    "count_list (once_poll_complete (snd ?w)) ?i =
       (if EvPollComplete \<in> set es then 0 else count_list (once_poll_complete (registered t)) ?i)"
    "count_list (once_drain (snd ?w)) ?i =
       (if EvDrain \<in> set es then 0 else count_list (once_drain (registered t)) ?i)"
    "EvPollComplete \<notin> set es \<and> EvDrain \<notin> set es \<longrightarrow> ready_state (snd ?w) = Some Pausing"
    unfolding advances_def em rs by blast
  have f: "fired t (snd ?w) = es" using es(1) by (simp add: fired_def)
  have pe: "pending ?i (snd ?w)"
    using adv pending_registered(1) [OF pw wf] unfolding advances_def by blast
  have sn: "snd (pause c k False evs t) = snd ?w" using form by simp
  have fs: "fst (pause c k False evs t) = (if ctx_event (contexts (snd ?w) ! ?i) = Some True then Returned () else Raised PauseTimeout)"
    using form fl by simp
  show ?thesis
    using sn fs pe es(2,3,4) pending_registered(2,3) [OF pw wf] f by simp
qed


text \<open>
  C4. On a polling transport with a poll in flight and a write pending, a waiting
  \<open>pause\<close> returns exactly when both a \<open>poll_complete\<close> and a \<open>drain\<close> event have been
  emitted since the call began (whatever else is emitted, in whatever order); it then
  leaves \<open>ready_state\<close> at \<open>paused\<close>. Otherwise it fails with the pause timeout. The
  listeners already registered are those of earlier contexts.
\<close>

theorem pause_completes_after_both:
  assumes "polling t" and "\<not> writable t"
    and "\<forall>j \<in> set (once_poll_complete t) \<union> set (once_drain t). j < length (contexts t)"
  shows "(fst (pause c k False evs t) = Returned ()) =
           (EvPollComplete \<in> set (fired t (snd (pause c k False evs t))) \<and>
            EvDrain \<in> set (fired t (snd (pause c k False evs t)))) \<and>
         (fst (pause c k False evs t) = Returned () \<longrightarrow>
            ready_state (snd (pause c k False evs t)) = Some Paused) \<and>
         (fst (pause c k False evs t) \<noteq> Returned () \<longrightarrow>
            fst (pause c k False evs t) = Raised PauseTimeout)"
proof -
  let ?i = "length (contexts t)"
  let ?u = "snd (pause c k False evs t)"
  have pw: "polling t \<or> \<not> writable t" using assms(1) by simp
  from pause_outcome [OF pw assms(3), of c k evs]
  have r: "fst (pause c k False evs t) = (if ctx_event (contexts ?u ! ?i) = Some True then Returned () else Raised PauseTimeout)"
    and pe: "pending ?i ?u"
    and pc: "count_list (once_poll_complete ?u) ?i = (if EvPollComplete \<in> set (fired t ?u) then 0 else 1)"
    and dr: "count_list (once_drain ?u) ?i = (if EvDrain \<in> set (fired t ?u) then 0 else 1)"
    using assms(1,2) by simp_all
  have ev: "ctx_event (contexts ?u ! ?i) = Some (count_list (once_poll_complete ?u) ?i + count_list (once_drain ?u) ?i = 0)"
    and ps: "count_list (once_poll_complete ?u) ?i + count_list (once_drain ?u) ?i = 0 \<longrightarrow> ready_state ?u = Some Paused"
    using pe by (simp_all add: pending_def ctx_ok_def)
  show ?thesis
    by (cases "EvPollComplete \<in> set (fired t ?u)"; cases "EvDrain \<in> set (fired t ?u)")
      (use r ev ps pc dr in simp_all)
qed

theorem pause_completes_after_both_witness:
  "polling busy_transport \<and> \<not> writable busy_transport \<and>
   fst (pause (sample_collab [] 200) XHRPollingTransport False
          [EvPollComplete, EvPoll, EvDrain] busy_transport) = Returned () \<and>
   ready_state (snd (pause (sample_collab [] 200) XHRPollingTransport False
          [EvPollComplete, EvPoll, EvDrain] busy_transport)) = Some Paused"
proof -
  have h1: "polling busy_transport" by code_simp
  have h2: "\<not> writable busy_transport" by code_simp
  have h3: "\<forall>j \<in> set (once_poll_complete busy_transport) \<union> set (once_drain busy_transport).
      j < length (contexts busy_transport)"
    by (simp add: busy_transport_def sample_transport_def init_def)
  have f: "fired busy_transport
      (snd (pause (sample_collab [] 200) XHRPollingTransport False
              [EvPollComplete, EvPoll, EvDrain] busy_transport))
      = [EvPollComplete, EvPoll, EvDrain]"
    by code_simp
  show ?thesis
    using pause_completes_after_both [OF h1 h2 h3, of "sample_collab [] 200" XHRPollingTransport
        "[EvPollComplete, EvPoll, EvDrain]"] h1 h2 f
    by simp
qed

text \<open>
  C5. A waiting \<open>pause\<close> called with a poll or a write outstanding, during which neither
  \<open>poll_complete\<close> nor \<open>drain\<close> is emitted, fails with the pause timeout and leaves
  \<open>ready_state\<close> at \<open>pausing\<close>.
\<close>

theorem pause_times_out:
  assumes "polling t \<or> \<not> writable t"
    and "\<forall>j \<in> set (once_poll_complete t) \<union> set (once_drain t). j < length (contexts t)"
    and "EvPollComplete \<notin> set (fired t (snd (pause c k False evs t)))"
    and "EvDrain \<notin> set (fired t (snd (pause c k False evs t)))"
  shows "fst (pause c k False evs t) = Raised PauseTimeout \<and>
         ready_state (snd (pause c k False evs t)) = Some Pausing"
proof -
  let ?i = "length (contexts t)"
  let ?u = "snd (pause c k False evs t)"
  from pause_outcome [OF assms(1,2), of c k evs]
  have r: "fst (pause c k False evs t) = (if ctx_event (contexts ?u ! ?i) = Some True then Returned () else Raised PauseTimeout)"
    and pe: "pending ?i ?u"
    and pc: "count_list (once_poll_complete ?u) ?i = (if polling t then 1 else 0)"
    and dr: "count_list (once_drain ?u) ?i = (if writable t then 0 else 1)"
    and rs: "ready_state ?u = Some Pausing"
    using assms(3,4) by simp_all
  have ev: "ctx_event (contexts ?u ! ?i) = Some (count_list (once_poll_complete ?u) ?i + count_list (once_drain ?u) ?i = 0)"
    using pe by (simp add: pending_def ctx_ok_def)
  show ?thesis using r ev pc dr rs assms(1) by (auto split: if_splits)
qed


theorem pause_times_out_witness:
  "fst (pause (sample_collab [] 200) XHRPollingTransport False [EvPoll, EvOpen] busy_transport)
     = Raised PauseTimeout \<and>
   ready_state (snd (pause (sample_collab [] 200) XHRPollingTransport False [EvPoll, EvOpen]
     busy_transport)) = Some Pausing"
proof -
  have h1: "polling busy_transport \<or> \<not> writable busy_transport" by code_simp
  have h2: "\<forall>j \<in> set (once_poll_complete busy_transport) \<union> set (once_drain busy_transport).
      j < length (contexts busy_transport)"
    by (simp add: busy_transport_def sample_transport_def init_def)
  have f: "fired busy_transport
      (snd (pause (sample_collab [] 200) XHRPollingTransport False [EvPoll, EvOpen] busy_transport))
      = [EvPoll, EvOpen]"
    by code_simp
  show ?thesis
    using pause_times_out [OF h1 h2, of "sample_collab [] 200" XHRPollingTransport "[EvPoll, EvOpen]"] f
    by simp
qed

section \<open>Properties of the binary codec\<close>

lemma deconstruct_true: "(fst (deconstruct v bufs) = JBool True) = (v = JBool True)"
  by (cases v) (auto simp: placeholder_def split: prod.splits)

lemma deconstruct_entries_true:
  "deconstruct_entries kvs bufs = (kws, bufs1) \<Longrightarrow>
     (map_of kws key = Some (JBool True)) = (map_of kvs key = Some (JBool True))"
proof (induction kvs arbitrary: bufs kws bufs1)
  case Nil
  then show ?case by simp
next
  case (Cons kv kvs)
  obtain k v where kv: "kv = (k, v)" by (cases kv)
  obtain w b1 where dv: "deconstruct v bufs = (w, b1)" by (cases "deconstruct v bufs")
  obtain rest b2 where dr: "deconstruct_entries kvs b1 = (rest, b2)"
    by (cases "deconstruct_entries kvs b1")
  have kws: "kws = (k, w) # rest" using Cons.prems kv dv dr by simp
  have w: "(w = JBool True) = (v = JBool True)" using deconstruct_true [of v bufs] dv by simp
  show ?case using Cons.IH [OF dr] kws kv w by simp
qed

lemma deconstruct_placeholder:
  "deconstruct_entries kvs bufs = (kws, bufs1) \<Longrightarrow> is_placeholder kws = is_placeholder kvs"
  by (simp add: is_placeholder_def deconstruct_entries_true)

lemma roundtrip_gen:
  "(placeholder_free v \<longrightarrow> (\<forall>s bufs1. deconstruct v bufs = (s, bufs1) \<longrightarrow>
      (\<exists>new. bufs1 = bufs @ new) \<and> (\<forall>ext. reconstruct s (bufs1 @ ext) = Some v)))"
  "(placeholder_free_list xs \<longrightarrow> (\<forall>ys bufs1. deconstruct_list xs bufs = (ys, bufs1) \<longrightarrow>
      (\<exists>new. bufs1 = bufs @ new) \<and> (\<forall>ext. reconstruct_list ys (bufs1 @ ext) = Some xs)))"
  "(placeholder_free_entries kvs \<longrightarrow> (\<forall>kws bufs1. deconstruct_entries kvs bufs = (kws, bufs1) \<longrightarrow>
      (\<exists>new. bufs1 = bufs @ new) \<and> (\<forall>ext. reconstruct_entries kws (bufs1 @ ext) = Some kvs)))"
proof (induction v bufs and xs bufs and kvs bufs rule: deconstruct_deconstruct_list_deconstruct_entries.induct)
  case (1 b bufs)
  then show ?case by (simp add: placeholder_def is_placeholder_def nth_append)
next
  case (2 xs bufs)
  then show ?case by (auto split: prod.splits)
next
  case (3 kvs bufs)
  show ?case
  proof (intro impI allI)
    fix s bufs1
    assume pf: "placeholder_free (JMap kvs)" and d: "deconstruct (JMap kvs) bufs = (s, bufs1)"
    obtain kws where k: "deconstruct_entries kvs bufs = (kws, bufs1)" and s: "s = JMap kws"
      using d by (auto split: prod.splits)
    have np: "\<not> is_placeholder kws" using deconstruct_placeholder [OF k] pf by simp
    from 3 pf k have "(\<exists>new. bufs1 = bufs @ new) \<and> (\<forall>ext. reconstruct_entries kws (bufs1 @ ext) = Some kvs)"
      by simp
    then show "(\<exists>new. bufs1 = bufs @ new) \<and> (\<forall>ext. reconstruct s (bufs1 @ ext) = Some (JMap kvs))"
      using s np by simp
  qed
next
  case (8 bufs)
  then show ?case by simp
next
  case (9 x xs bufs)
  show ?case
  proof (intro impI allI)
    fix ys bufs2
    assume pf: "placeholder_free_list (x # xs)" and d: "deconstruct_list (x # xs) bufs = (ys, bufs2)"
    obtain y bufs1 where dx: "deconstruct x bufs = (y, bufs1)" by (cases "deconstruct x bufs")
    obtain zs where dxs: "deconstruct_list xs bufs1 = (zs, bufs2)" and ys: "ys = y # zs"
      using d dx by (auto split: prod.splits)
    from "9.IH"(1) pf dx obtain n1 where n1: "bufs1 = bufs @ n1"
      and r1: "\<And>ext. reconstruct y (bufs1 @ ext) = Some x" by auto
    from "9.IH"(2) [OF dx [symmetric]] pf dxs obtain n2 where n2: "bufs2 = bufs1 @ n2"
      and r2: "\<And>ext. reconstruct_list zs (bufs2 @ ext) = Some xs" by auto
    have "\<And>ext. reconstruct y (bufs2 @ ext) = Some x" using r1 [of "n2 @ _"] n2 by simp
    then show "(\<exists>new. bufs2 = bufs @ new) \<and> (\<forall>ext. reconstruct_list ys (bufs2 @ ext) = Some (x # xs))"
      using n1 n2 r2 ys by simp
  qed
next
  case (10 bufs)
  then show ?case by simp
next
  case (11 k v kvs bufs)
  show ?case
  proof (intro impI allI)
    fix kws bufs2
    assume pf: "placeholder_free_entries ((k, v) # kvs)"
      and d: "deconstruct_entries ((k, v) # kvs) bufs = (kws, bufs2)"
    obtain w bufs1 where dv: "deconstruct v bufs = (w, bufs1)" by (cases "deconstruct v bufs")
    obtain rest where dr: "deconstruct_entries kvs bufs1 = (rest, bufs2)" and kws: "kws = (k, w) # rest"
      using d dv by (auto split: prod.splits)
    from "11.IH"(1) pf dv obtain n1 where n1: "bufs1 = bufs @ n1"
      and r1: "\<And>ext. reconstruct w (bufs1 @ ext) = Some v" by auto
    from "11.IH"(2) [OF dv [symmetric]] pf dr obtain n2 where n2: "bufs2 = bufs1 @ n2"
      and r2: "\<And>ext. reconstruct_entries rest (bufs2 @ ext) = Some kvs" by auto
    have "\<And>ext. reconstruct w (bufs2 @ ext) = Some v" using r1 [of "n2 @ _"] n2 by simp
    then show "(\<exists>new. bufs2 = bufs @ new) \<and> (\<forall>ext. reconstruct_entries kws (bufs2 @ ext) = Some ((k, v) # kvs))"
      using n1 n2 r2 kws by simp
  qed
qed simp_all


text \<open>
  C1, as amended. For every data tree \<open>D\<close> of arrays, maps, text, numbers, booleans, null
  and binary blobs in which no map has a true \<open>_placeholder\<close> entry, reconstructing the
  packet from the skeleton and the buffers of \<open>deconstruct_packet({type: 'event', data: D})\<close>
  gives back the data \<open>D\<close>.
\<close>

theorem round_trip_placeholder_free:
  assumes "placeholder_free d"
  shows "round_trip d = Some (Some d)"
proof -
  obtain s bufs where d: "deconstruct d [] = (s, bufs)" by (cases "deconstruct d []")
  have "reconstruct s (bufs @ []) = Some d" using roundtrip_gen(1) [of d "[]"] assms d by blast
  then show ?thesis
    using d by (simp add: round_trip_def deconstruct_packet_def reconstruct_packet_def event_packet_def)
qed

theorem round_trip_placeholder_free_witness:
  "round_trip (JMap [(''hello'', JBin [0, 1, 2, 3]), (''world'', JArr [JBin [4, 5], JBool True]), (''yes'', JText ''!!'')])
     = Some (Some (JMap [(''hello'', JBin [0, 1, 2, 3]), (''world'', JArr [JBin [4, 5], JBool True]), (''yes'', JText ''!!'')]))"
  using round_trip_placeholder_free
    [of "JMap [(''hello'', JBin [0, 1, 2, 3]), (''world'', JArr [JBin [4, 5], JBool True]), (''yes'', JText ''!!'')]"]
  by (simp add: is_placeholder_def)

text \<open>
  C1 as stated fails on a tree that holds a map shaped like a placeholder: the map is
  copied into the skeleton, and the reconstruction replaces it by a buffer.
\<close>

theorem round_trip_loses_placeholder_shaped_map:
  "round_trip (JArr [JMap [(''_placeholder'', JBool True), (''num'', JNum 0)], JBin [1, 2]])
     = Some (Some (JArr [JBin [1, 2], JBin [1, 2]])) \<and>
   round_trip (JArr [JMap [(''_placeholder'', JBool True), (''num'', JNum 0)], JBin [1, 2]])
     \<noteq> Some (Some (JArr [JMap [(''_placeholder'', JBool True), (''num'', JNum 0)], JBin [1, 2]]))"
  by (simp add: round_trip_def deconstruct_packet_def reconstruct_packet_def event_packet_def
      placeholder_def is_placeholder_def)

end
